theory Spec2Isabelle
  imports Complex_Main "HOL-Library.Multiset"
begin

section \<open>The paginated user list: \<open>GET /api/users\<close>\<close>

text \<open>
  The handler reads three query-string values, clamps the pagination values, runs two
  SQL statements against five tables and assembles a response. The SQL text is embedded
  relation by relation: a table is the list of its rows, a \<open>LEFT JOIN\<close> pairs a row
  with each matching row of the right-hand table or with \<open>NULL\<close> when there is none, a
  nullable column is an \<open>option\<close>. Timestamps are integers (seconds), and \<open>now\<close> is
  \<open>CURRENT_TIMESTAMP\<close>. Strings are byte strings.

  Left out are the columns that are only passed through (\<open>username\<close>, \<open>birth_date\<close>,
  \<open>long_bio\<close>, \<open>updated_at\<close>), the fields read out of the profile document
  (\<open>instagram_handle\<close>, \<open>socialMedia\<close>, \<open>preferences\<close>, \<open>skills\<close>, \<open>interests\<close>),
  \<open>days_since_created\<close>, the four \<open>has...\<close> flags, the page summary and the metrics
  calls: none of them feeds a join, the filter, the order or the pagination. The foreign
  keys \<open>user_id\<close> and the log's \<open>action\<close> and \<open>created_at\<close> are taken as not null; a
  \<open>COUNT\<close> is the integer it denotes.
\<close>

subsection \<open>JavaScript numbers and the pagination parameters\<close>

text \<open>
  \<open>parseInt\<close> yields a number or \<open>NaN\<close>. \<open>Num n\<close> stands for the integer-valued
  double \<open>n\<close>; doubles represent integers exactly up to magnitude \<open>2 ^ 53\<close>, which covers
  every row count and every clamped limit.
\<close>

datatype jsnum = NaN | Num int

definition DEFAULT_LIMIT :: int where
  "DEFAULT_LIMIT = 50"

definition MAX_LIMIT :: int where
  "MAX_LIMIT = 200"

definition is_space :: "char \<Rightarrow> bool" where
  "is_space c \<longleftrightarrow> of_char c \<in> {9, 10, 11, 12, 13, 32 :: nat}"

definition is_digit :: "char \<Rightarrow> bool" where
  "is_digit c \<longleftrightarrow> 48 \<le> (of_char c :: nat) \<and> (of_char c :: nat) \<le> 57"

definition digit_value :: "char \<Rightarrow> int" where
  "digit_value c = int (of_char c) - 48"

definition digits_value :: "string \<Rightarrow> int" where
  "digits_value ds = foldl (\<lambda>acc c. 10 * acc + digit_value c) 0 ds"

text \<open>
  \<open>parseInt(s, 10)\<close>: leading white space (the ASCII part of it) is skipped, one sign
  is read, then the longest run of decimal digits; no digit at all gives \<open>NaN\<close>.
\<close>

definition parseInt :: "string \<Rightarrow> jsnum" where
  "parseInt s =
     (let t = dropWhile is_space s;
          neg = (case t of c # _ \<Rightarrow> c = CHR ''-'' | [] \<Rightarrow> False);
          t' = (case t of c # r \<Rightarrow> if c = CHR ''-'' \<or> c = CHR ''+'' then r else t | [] \<Rightarrow> t);
          ds = takeWhile is_digit t'
      in if ds = [] then NaN
         else Num (if neg then - digits_value ds else digits_value ds))"

text \<open>\<open>Math.max\<close> and \<open>Math.min\<close> return \<open>NaN\<close> as soon as one argument is \<open>NaN\<close>.\<close>

fun Math_max :: "jsnum \<Rightarrow> jsnum \<Rightarrow> jsnum" where
  "Math_max (Num a) (Num b) = Num (max a b)"
| "Math_max _ _ = NaN"

fun Math_min :: "jsnum \<Rightarrow> jsnum \<Rightarrow> jsnum" where
  "Math_min (Num a) (Num b) = Num (min a b)"
| "Math_min _ _ = NaN"

fun js_sub :: "jsnum \<Rightarrow> jsnum \<Rightarrow> jsnum" where
  "js_sub (Num a) (Num b) = Num (a - b)"
| "js_sub _ _ = NaN"

fun js_mul :: "jsnum \<Rightarrow> jsnum \<Rightarrow> jsnum" where
  "js_mul (Num a) (Num b) = Num (a * b)"
| "js_mul _ _ = NaN"

text \<open>\<open>x || d\<close> on a query-string value: \<open>null\<close> and the empty string are falsy.\<close>

definition or_default :: "string option \<Rightarrow> string \<Rightarrow> string" where
  "or_default p d = (case p of None \<Rightarrow> d | Some s \<Rightarrow> if s = [] then d else s)"

record request =
  division_q :: "string option"
  page_q :: "string option"
  limit_q :: "string option"

definition req_page :: "request \<Rightarrow> jsnum" where
  "req_page r = Math_max (Num 1) (parseInt (or_default (page_q r) ''1''))"

text \<open>\<open>String(DEFAULT_LIMIT)\<close> is the string \<open>50\<close>.\<close>

definition req_limit :: "request \<Rightarrow> jsnum" where
  "req_limit r =
     Math_min (Num MAX_LIMIT) (Math_max (Num 1) (parseInt (or_default (limit_q r) ''50'')))"

definition req_offset :: "request \<Rightarrow> jsnum" where
  "req_offset r = js_mul (js_sub (req_page r) (Num 1)) (req_limit r)"

subsection \<open>The tables\<close>

record user_row =
  u_id :: int
  u_full_name :: "string option"
  u_bio :: "string option"
  u_profile_json :: "string option"
  u_address :: "string option"
  u_phone_number :: "string option"
  u_created_at :: int
  u_auth_id :: "int option"

record auth_row =
  a_id :: int
  a_email :: "string option"

record role_row =
  ur_user_id :: int
  ur_role :: "string option"

record division_row =
  ud_user_id :: int
  ud_division_name :: "string option"

record log_row =
  ul_user_id :: int
  ul_action :: string
  ul_created_at :: int

record database =
  users_t :: "user_row list"
  auth_t :: "auth_row list"
  user_roles_t :: "role_row list"
  user_divisions_t :: "division_row list"
  user_logs_t :: "log_row list"

subsection \<open>The common table expressions\<close>

record aggregate_row =
  ua_user_id :: int
  ua_log_count :: int
  ua_login_count :: int
  ua_update_count :: int
  ua_recent_logs :: int

definition count_where :: "('a \<Rightarrow> bool) \<Rightarrow> 'a list \<Rightarrow> int" where
  "count_where P xs = int (length (filter P xs))"

definition thirty_days :: int where
  "thirty_days = 30 * 24 * 60 * 60"

text \<open>\<open>user_aggregates\<close>: one row for each \<open>user_id\<close> that occurs in \<open>user_logs\<close>.\<close>

definition user_aggregates :: "database \<Rightarrow> int \<Rightarrow> aggregate_row list" where
  "user_aggregates db now =
     map (\<lambda>uid.
            let g = filter (\<lambda>ul. ul_user_id ul = uid) (user_logs_t db)
            in \<lparr> ua_user_id = uid,
                 ua_log_count = count_where (\<lambda>ul. True) g,
                 ua_login_count = count_where (\<lambda>ul. ul_action ul = ''login'') g,
                 ua_update_count = count_where (\<lambda>ul. ul_action ul = ''update_profile'') g,
                 ua_recent_logs = count_where (\<lambda>ul. ul_created_at ul > now - thirty_days) g \<rparr>)
         (remdups (map ul_user_id (user_logs_t db)))"

text \<open>\<open>total_users_count\<close>: a single row.\<close>

definition total_users_count :: "database \<Rightarrow> int list" where
  "total_users_count db = [int (length (users_t db))]"

record rank_row =
  ucr_id :: int
  ucr_newer_users :: int

text \<open>
  \<open>user_creation_rank\<close>: \<open>COUNT(*) OVER (ORDER BY created_at DESC) - 1\<close>. With an
  \<open>ORDER BY\<close> and no frame clause the window frame is
  \<open>RANGE BETWEEN UNBOUNDED PRECEDING AND CURRENT ROW\<close>: it runs from the first row of
  the ordering to the last peer of the current row, so the count ranges over every row
  whose \<open>created_at\<close> is not older than the current row's.
\<close>

definition user_creation_rank :: "database \<Rightarrow> rank_row list" where
  "user_creation_rank db =
     map (\<lambda>u. \<lparr> ucr_id = u_id u,
                ucr_newer_users =
                  count_where (\<lambda>v. u_created_at v \<ge> u_created_at u) (users_t db) - 1 \<rparr>)
         (users_t db)"

subsection \<open>Joins\<close>

text \<open>
  The right-hand side of one \<open>LEFT JOIN\<close> for one left-hand row: the matching rows, or
  a single \<open>NULL\<close> row when nothing matches.
\<close>

definition left_join :: "('b \<Rightarrow> bool) \<Rightarrow> 'b list \<Rightarrow> 'b option list" where
  "left_join on_cond rs =
     (case filter on_cond rs of [] \<Rightarrow> [None] | m # ms \<Rightarrow> map Some (m # ms))"

record joined_row =
  j_u :: user_row
  j_a :: "auth_row option"
  j_ur :: "role_row option"
  j_ud :: "division_row option"
  j_ua :: "aggregate_row option"
  j_ucr :: "rank_row option"
  j_tc :: int

definition joined_for :: "database \<Rightarrow> int \<Rightarrow> user_row \<Rightarrow> joined_row list" where
  "joined_for db now u =
     map (\<lambda>(a, ur, ud, ua, ucr, tc).
            \<lparr> j_u = u, j_a = a, j_ur = ur, j_ud = ud, j_ua = ua, j_ucr = ucr, j_tc = tc \<rparr>)
       (List.product (left_join (\<lambda>a. u_auth_id u = Some (a_id a)) (auth_t db))
       (List.product (left_join (\<lambda>ur. u_id u = ur_user_id ur) (user_roles_t db))
       (List.product (left_join (\<lambda>ud. u_id u = ud_user_id ud) (user_divisions_t db))
       (List.product (left_join (\<lambda>ua. u_id u = ua_user_id ua) (user_aggregates db now))
       (List.product (left_join (\<lambda>ucr. u_id u = ucr_id ucr) (user_creation_rank db))
                     (total_users_count db))))))"

definition from_clause :: "database \<Rightarrow> int \<Rightarrow> joined_row list" where
  "from_clause db now = concat (map (joined_for db now) (users_t db))"

text \<open>
  \<open>WHERE ($1::text IS NULL OR $1 = 'all' OR ud.division_name = $1)\<close>; a comparison
  with \<open>NULL\<close> is not true.
\<close>

definition division_name_of :: "division_row option \<Rightarrow> string option" where
  "division_name_of ud = (case ud of None \<Rightarrow> None | Some d \<Rightarrow> ud_division_name d)"

definition where_clause :: "string option \<Rightarrow> division_row option \<Rightarrow> bool" where
  "where_clause p ud \<longleftrightarrow>
     p = None \<or> p = Some ''all'' \<or> (division_name_of ud \<noteq> None \<and> division_name_of ud = p)"

subsection \<open>The select list\<close>

record result_row =
  row_id :: int
  row_full_name :: "string option"
  row_bio :: "string option"
  row_profile_json :: "string option"
  row_address :: "string option"
  row_phone_number :: "string option"
  row_created_at :: int
  row_email :: "string option"
  row_role :: "string option"
  row_division_name :: "string option"
  row_total_users :: int
  row_newer_users :: "int option"
  row_log_count :: int
  row_role_count :: int
  row_division_count :: int
  row_login_count :: int
  row_update_count :: int
  row_recent_logs :: int
  row_display_name :: "string option"
  row_bio_display :: string
  row_is_active :: bool
  row_is_senior :: bool
  row_profile_completeness :: int

definition coalesce :: "'a option \<Rightarrow> 'a \<Rightarrow> 'a" where
  "coalesce x d = (case x of None \<Rightarrow> d | Some v \<Rightarrow> v)"

definition nullif :: "string option \<Rightarrow> string \<Rightarrow> string option" where
  "nullif x v = (if x = Some v then None else x)"

text \<open>The operator \<open>||\<close> yields \<open>NULL\<close> when an operand is \<open>NULL\<close>.\<close>

definition sql_concat :: "string option \<Rightarrow> string option \<Rightarrow> string option" where
  "sql_concat x y =
     (case x of None \<Rightarrow> None | Some a \<Rightarrow> (case y of None \<Rightarrow> None | Some b \<Rightarrow> Some (a @ b)))"

text \<open>\<open>(x IS NOT NULL)::int\<close>\<close>

definition not_null_int :: "'a option \<Rightarrow> int" where
  "not_null_int x = (if x \<noteq> None then 1 else 0)"

definition profile_completeness :: "user_row \<Rightarrow> int" where
  "profile_completeness u =
     (let n = not_null_int (u_bio u) + not_null_int (u_address u)
              + not_null_int (u_phone_number u) + not_null_int (u_profile_json u)
      in if u_bio u \<noteq> None \<and> u_address u \<noteq> None
            \<and> u_phone_number u \<noteq> None \<and> u_profile_json u \<noteq> None then 100
         else if n = 3 then 75
         else if n = 2 then 50
         else if n = 1 then 25
         else 0)"

definition role_of :: "role_row option \<Rightarrow> string option" where
  "role_of ur = (case ur of None \<Rightarrow> None | Some x \<Rightarrow> ur_role x)"

definition select_row :: "joined_row \<Rightarrow> result_row" where
  "select_row j =
     (let u = j_u j;
          role = role_of (j_ur j);
          log_count = coalesce (map_option ua_log_count (j_ua j)) 0
      in \<lparr> row_id = u_id u,
           row_full_name = u_full_name u,
           row_bio = u_bio u,
           row_profile_json = u_profile_json u,
           row_address = u_address u,
           row_phone_number = u_phone_number u,
           row_created_at = u_created_at u,
           row_email = (case j_a j of None \<Rightarrow> None | Some a \<Rightarrow> a_email a),
           row_role = role,
           row_division_name = division_name_of (j_ud j),
           row_total_users = j_tc j,
           row_newer_users = map_option ucr_newer_users (j_ucr j),
           row_log_count = log_count,
           row_role_count = 1,
           row_division_count = 1,
           row_login_count = coalesce (map_option ua_login_count (j_ua j)) 0,
           row_update_count = coalesce (map_option ua_update_count (j_ua j)) 0,
           row_recent_logs = coalesce (map_option ua_recent_logs (j_ua j)) 0,
           row_display_name =
             sql_concat (sql_concat (sql_concat (u_full_name u) (Some '' (''))
                                    (Some (coalesce role ''no role'')))
                        (Some '')''),
           row_bio_display = coalesce (nullif (u_bio u) []) ''No bio available'',
           row_is_active = (log_count > 5),
           row_is_senior = (role = Some ''admin'' \<or> role = Some ''moderator''),
           row_profile_completeness = profile_completeness u \<rparr>)"

text \<open>The rows of the main statement before \<open>ORDER BY\<close> and \<open>LIMIT\<close>.\<close>

definition main_rows :: "database \<Rightarrow> int \<Rightarrow> string option \<Rightarrow> result_row list" where
  "main_rows db now p =
     map select_row (filter (\<lambda>j. where_clause p (j_ud j)) (from_clause db now))"

subsection \<open>Ordering and paging\<close>

text \<open>
  \<open>ORDER BY u.created_at DESC\<close> names one sort key. SQL leaves the order of rows with
  equal keys to the database engine, and the engine may choose differently from one
  execution to the next. The engine's sort is therefore an argument of the model, and
  \<open>order_by_created_at_desc\<close> says that an output is one the \<open>ORDER BY\<close> allows: the
  same rows, newest first.
\<close>

type_synonym engine = "result_row list \<Rightarrow> result_row list"

definition order_by_created_at_desc :: "result_row list \<Rightarrow> result_row list \<Rightarrow> bool" where
  "order_by_created_at_desc rows out \<longleftrightarrow>
     mset out = mset rows \<and> sorted_wrt (\<lambda>x y. row_created_at x \<ge> row_created_at y) out"

definition engine_ok :: "engine \<Rightarrow> result_row list \<Rightarrow> bool" where
  "engine_ok srt rows \<longleftrightarrow> order_by_created_at_desc rows (srt rows)"

datatype error = InternalServerError

text \<open>
  \<open>LIMIT $2 OFFSET $3\<close>: both parameters are of type \<open>bigint\<close> and must not be
  negative; the statement fails otherwise, and the handler's \<open>catch\<close> answers 500.
\<close>

definition is_bigint :: "int \<Rightarrow> bool" where
  "is_bigint n \<longleftrightarrow> - (2 ^ 63) \<le> n \<and> n < 2 ^ 63"

definition main_query ::
  "database \<Rightarrow> int \<Rightarrow> engine \<Rightarrow> string option \<Rightarrow> int \<Rightarrow> int \<Rightarrow> error + result_row list" where
  "main_query db now srt p lm off =
     (if is_bigint lm \<and> is_bigint off \<and> 0 \<le> lm \<and> 0 \<le> off
      then Inr (take (nat lm) (drop (nat off) (srt (main_rows db now p))))
      else Inl InternalServerError)"

text \<open>The second statement: \<open>SELECT COUNT(*) ... LEFT JOIN user_divisions ... WHERE ...\<close>.\<close>

definition count_query :: "database \<Rightarrow> string option \<Rightarrow> int" where
  "count_query db p =
     count_where (where_clause p)
       (concat (map (\<lambda>u. left_join (\<lambda>ud. u_id u = ud_user_id ud) (user_divisions_t db))
                    (users_t db)))"

subsection \<open>The response\<close>

record user_json =
  userId :: int
  fullName :: "string option"
  email :: "string option"
  bio :: "string option"
  profileJson :: "string option"
  address :: "string option"
  phoneNumber :: "string option"
  createdAt :: int
  role :: "string option"
  division :: "string option"
  displayName :: "string option"
  bioDisplay :: string
  totalUsers :: int
  newerUsers :: "int option"
  logCount :: int
  roleCount :: int
  divisionCount :: int
  loginCount :: int
  updateCount :: int
  recentLogs :: int
  isActive :: bool
  isSenior :: bool
  profileCompleteness :: int

definition to_json :: "result_row \<Rightarrow> user_json" where
  "to_json user =
     \<lparr> userId = row_id user,
       fullName = row_full_name user,
       email = row_email user,
       bio = row_bio user,
       profileJson = row_profile_json user,
       address = row_address user,
       phoneNumber = row_phone_number user,
       createdAt = row_created_at user,
       role = row_role user,
       division = row_division_name user,
       displayName = row_display_name user,
       bioDisplay = row_bio_display user,
       totalUsers = row_total_users user,
       newerUsers = row_newer_users user,
       logCount = row_log_count user,
       roleCount = row_role_count user,
       divisionCount = row_division_count user,
       loginCount = row_login_count user,
       updateCount = row_update_count user,
       recentLogs = row_recent_logs user,
       isActive = row_is_active user,
       isSenior = row_is_senior user,
       profileCompleteness = row_profile_completeness user \<rparr>"

record pagination =
  page :: int
  limit :: int
  totalPages :: int
  totalCount :: int
  hasNextPage :: bool
  hasPreviousPage :: bool

record response =
  users :: "user_json list"
  pagination :: pagination
  filteredBy :: string

text \<open>\<open>Math.ceil(a / b)\<close>\<close>

definition Math_ceil_quot :: "int \<Rightarrow> int \<Rightarrow> int" where
  "Math_ceil_quot a b = \<lceil>real_of_int a / real_of_int b\<rceil>"

text \<open>
  The handler. A \<open>NaN\<close> among the statement's parameters is no \<open>bigint\<close>: the statement
  fails and the answer is 500. Both statements run before the response is built.
\<close>

definition GET :: "database \<Rightarrow> int \<Rightarrow> engine \<Rightarrow> request \<Rightarrow> error + response" where
  "GET db now srt r =
     (let divisionFilter = division_q r
      in case (req_page r, req_limit r, req_offset r) of
           (Num pg, Num lm, Num off) \<Rightarrow>
             (case main_query db now srt divisionFilter lm off of
                Inl e \<Rightarrow> Inl e
              | Inr rows \<Rightarrow>
                  let tc = count_query db divisionFilter;
                      tp = Math_ceil_quot tc lm
                  in Inr \<lparr> users = map to_json rows,
                           pagination = \<lparr> page = pg, limit = lm, totalPages = tp,
                                          totalCount = tc, hasNextPage = (pg < tp),
                                          hasPreviousPage = (pg > 1) \<rparr>,
                           filteredBy = or_default divisionFilter ''all'' \<rparr>)
         | _ \<Rightarrow> Inl InternalServerError)"

subsection \<open>Notions the properties are stated with\<close>

text \<open>
  A profile matches the filter when there is no filter (\<open>NULL\<close> or \<open>'all'\<close>) or one of
  its division rows carries the requested name.
\<close>

definition profile_matches :: "database \<Rightarrow> string option \<Rightarrow> user_row \<Rightarrow> bool" where
  "profile_matches db p u \<longleftrightarrow>
     p = None \<or> p = Some ''all''
     \<or> list_ex (\<lambda>ud. ud_user_id ud = u_id u \<and> ud_division_name ud = p) (user_divisions_t db)"

text \<open>
  The count of strictly newer profiles, as the earlier version of the handler selected it:
  \<open>(SELECT COUNT(*) FROM users WHERE created_at > u.created_at) as newer_users\<close>.
\<close>

definition newer_users_subquery :: "database \<Rightarrow> user_row \<Rightarrow> int" where
  "newer_users_subquery db u = count_where (\<lambda>v. u_created_at v > u_created_at u) (users_t db)"

text \<open>The rows of the main statement that stem from one profile.\<close>

definition rows_for :: "database \<Rightarrow> int \<Rightarrow> string option \<Rightarrow> user_row \<Rightarrow> result_row list" where
  "rows_for db now p u =
     map select_row (filter (\<lambda>j. where_clause p (j_ud j)) (joined_for db now u))"

text \<open>Primary keys: \<open>users.id\<close> and \<open>auth.id\<close>.\<close>

definition unique_keys :: "database \<Rightarrow> bool" where
  "unique_keys db \<longleftrightarrow> distinct (map u_id (users_t db)) \<and> distinct (map a_id (auth_t db))"

text \<open>At most one role row and at most one division row for each profile.\<close>

definition single_assignments :: "database \<Rightarrow> bool" where
  "single_assignments db \<longleftrightarrow>
     distinct (map ur_user_id (user_roles_t db)) \<and> distinct (map ud_user_id (user_divisions_t db))"

subsection \<open>Two database engines and some datasets\<close>

text \<open>
  Two sorts that \<open>ORDER BY u.created_at DESC\<close> allows: a stable sort of the rows as
  scanned, and a stable sort of the rows scanned backwards. They differ on rows of equal
  creation time only.
\<close>

definition stable_sort :: engine where
  "stable_sort rows = sort_key (\<lambda>x. - row_created_at x) rows"

definition reversed_scan_sort :: engine where
  "reversed_scan_sort rows = sort_key (\<lambda>x. - row_created_at x) (rev rows)"

text \<open>Three profiles created at 10, 20 and 30; only the first has a role and a log entry.\<close>

definition db_ex :: database where
  "db_ex =
     \<lparr> users_t =
         [\<lparr> u_id = 1, u_full_name = Some ''Ann'', u_bio = Some ''hi'', u_profile_json = None,
             u_address = Some ''1 Main St'', u_phone_number = None, u_created_at = 10,
             u_auth_id = Some 7 \<rparr>,
          \<lparr> u_id = 2, u_full_name = Some ''Bob'', u_bio = Some [], u_profile_json = None,
             u_address = None, u_phone_number = None, u_created_at = 20, u_auth_id = None \<rparr>,
          \<lparr> u_id = 3, u_full_name = Some ''Cy'', u_bio = None, u_profile_json = None,
             u_address = None, u_phone_number = None, u_created_at = 30, u_auth_id = None \<rparr>],
       auth_t = [\<lparr> a_id = 7, a_email = Some ''ann@example.org'' \<rparr>],
       user_roles_t = [\<lparr> ur_user_id = 1, ur_role = Some ''admin'' \<rparr>],
       user_divisions_t =
         [\<lparr> ud_user_id = 1, ud_division_name = Some ''Tech'' \<rparr>,
          \<lparr> ud_user_id = 2, ud_division_name = Some ''Ops'' \<rparr>],
       user_logs_t = [\<lparr> ul_user_id = 1, ul_action = ''login'', ul_created_at = 5 \<rparr>] \<rparr>"

text \<open>One profile with two role rows and two division rows.\<close>

definition db_dup :: database where
  "db_dup =
     \<lparr> users_t =
         [\<lparr> u_id = 1, u_full_name = Some ''Ann'', u_bio = None, u_profile_json = None,
             u_address = None, u_phone_number = None, u_created_at = 10, u_auth_id = None \<rparr>],
       auth_t = [],
       user_roles_t =
         [\<lparr> ur_user_id = 1, ur_role = Some ''admin'' \<rparr>,
          \<lparr> ur_user_id = 1, ur_role = Some ''user'' \<rparr>],
       user_divisions_t =
         [\<lparr> ud_user_id = 1, ud_division_name = Some ''Tech'' \<rparr>,
          \<lparr> ud_user_id = 1, ud_division_name = Some ''Ops'' \<rparr>],
       user_logs_t = [] \<rparr>"

text \<open>Two profiles created at the same time.\<close>

definition db_ties :: database where
  "db_ties =
     \<lparr> users_t =
         [\<lparr> u_id = 1, u_full_name = Some ''Ann'', u_bio = None, u_profile_json = None,
             u_address = None, u_phone_number = None, u_created_at = 10, u_auth_id = None \<rparr>,
          \<lparr> u_id = 2, u_full_name = Some ''Bob'', u_bio = None, u_profile_json = None,
             u_address = None, u_phone_number = None, u_created_at = 10, u_auth_id = None \<rparr>],
       auth_t = [], user_roles_t = [], user_divisions_t = [], user_logs_t = [] \<rparr>"

definition req_ex :: "string option \<Rightarrow> string \<Rightarrow> string \<Rightarrow> request" where
  "req_ex d p l = \<lparr> division_q = d, page_q = Some p, limit_q = Some l \<rparr>"



section \<open>Basic facts about the handler\<close>

lemma Math_ceil_quot_div: "Math_ceil_quot a b = - ((- a) div b)"
  unfolding Math_ceil_quot_def by (rule ceiling_divide_eq_div)



lemma req_offset_Num:
  assumes "req_page r = Num pg" and "req_limit r = Num lm"
  shows "req_offset r = Num ((pg - 1) * lm)"
  using assms by (simp add: req_offset_def)


lemma GET_Inr_D:
  assumes "GET db now srt r = Inr resp"
  shows "\<exists>pg lm. req_page r = Num pg \<and> req_limit r = Num lm
           \<and> is_bigint lm \<and> is_bigint ((pg - 1) * lm) \<and> 0 \<le> lm \<and> 0 \<le> (pg - 1) * lm
           \<and> users resp = map to_json
                (take (nat lm) (drop (nat ((pg - 1) * lm)) (srt (main_rows db now (division_q r)))))
           \<and> pagination resp =
                \<lparr> page = pg, limit = lm,
                  totalPages = Math_ceil_quot (count_query db (division_q r)) lm,
                  totalCount = count_query db (division_q r),
                  hasNextPage = (pg < Math_ceil_quot (count_query db (division_q r)) lm),
                  hasPreviousPage = (pg > 1) \<rparr>
           \<and> filteredBy resp = or_default (division_q r) ''all''"
proof -
  obtain pg lm off where n: "req_page r = Num pg" "req_limit r = Num lm" "req_offset r = Num off"
    using assms by (auto simp: GET_def Let_def split: jsnum.splits)
  have off: "off = (pg - 1) * lm"
    using n req_offset_Num[of r pg lm] by simp
  show ?thesis
    using assms n unfolding off
    by (auto simp: GET_def main_query_def Let_def split: if_splits)
qed


lemma engine_ok_set: "engine_ok srt rows \<Longrightarrow> set (srt rows) = set rows"
  unfolding engine_ok_def order_by_created_at_desc_def by (metis mset_eq_setD)

lemma users_of_response:
  assumes "engine_ok srt (main_rows db now (division_q r))"
      and "GET db now srt r = Inr resp"
      and "x \<in> set (users resp)"
  shows "\<exists>j \<in> set (from_clause db now). where_clause (division_q r) (j_ud j) \<and> x = to_json (select_row j)"
proof -
  from GET_Inr_D[OF assms(2)] obtain pg lm where
    u: "users resp = map to_json
          (take (nat lm) (drop (nat ((pg - 1) * lm)) (srt (main_rows db now (division_q r)))))"
    by blast
  from assms(3) u obtain y where y: "x = to_json y"
      "y \<in> set (take (nat lm) (drop (nat ((pg - 1) * lm)) (srt (main_rows db now (division_q r)))))"
    by auto
  then have "y \<in> set (srt (main_rows db now (division_q r)))"
    by (meson in_set_dropD in_set_takeD)
  then have "y \<in> set (main_rows db now (division_q r))"
    using engine_ok_set[OF assms(1)] by simp
  then show ?thesis using y(1) by (auto simp: main_rows_def)
qed

lemma req_limit_range:
  assumes "req_limit r = Num lm"
  shows "1 \<le> lm \<and> lm \<le> MAX_LIMIT"
  using assms
  by (cases "parseInt (or_default (limit_q r) ''50'')") (auto simp: req_limit_def MAX_LIMIT_def)

lemma req_page_range:
  assumes "req_page r = Num pg"
  shows "1 \<le> pg"
  using assms
  by (cases "parseInt (or_default (page_q r) ''1'')") (auto simp: req_page_def)

section \<open>Facts about the joins\<close>

lemma left_join_ne: "left_join P rs \<noteq> []"
  by (simp add: left_join_def split: list.split)

lemma Some_in_left_join: "Some d \<in> set (left_join P rs) \<longleftrightarrow> d \<in> set rs \<and> P d"
proof (cases "filter P rs")
  case Nil
  then have "\<forall>x \<in> set rs. \<not> P x" by (simp add: filter_empty_conv)
  with Nil show ?thesis by (auto simp: left_join_def)
next
  case (Cons m ms)
  then have "set (left_join P rs) = Some ` set (filter P rs)"
    by (simp add: left_join_def)
  then show ?thesis by auto
qed

lemma None_in_left_join: "None \<in> set (left_join P rs) \<longleftrightarrow> (\<forall>d \<in> set rs. \<not> P d)"
proof (cases "filter P rs")
  case Nil
  then have "\<forall>x \<in> set rs. \<not> P x" by (simp add: filter_empty_conv)
  with Nil show ?thesis by (auto simp: left_join_def)
next
  case (Cons m ms)
  then have "m \<in> set (filter P rs)" by simp
  then have "m \<in> set rs \<and> P m" by simp
  moreover have "set (left_join P rs) = Some ` set (filter P rs)"
    using Cons by (simp add: left_join_def)
  ultimately show ?thesis by auto
qed

lemma length_left_join: "length (left_join P rs) = max 1 (length (filter P rs))"
  by (simp add: left_join_def split: list.split)

lemma from_clause_iff:
  "j \<in> set (from_clause db now) \<longleftrightarrow>
     j_u j \<in> set (users_t db)
     \<and> j_a j \<in> set (left_join (\<lambda>a. u_auth_id (j_u j) = Some (a_id a)) (auth_t db))
     \<and> j_ur j \<in> set (left_join (\<lambda>ur. u_id (j_u j) = ur_user_id ur) (user_roles_t db))
     \<and> j_ud j \<in> set (left_join (\<lambda>ud. u_id (j_u j) = ud_user_id ud) (user_divisions_t db))
     \<and> j_ua j \<in> set (left_join (\<lambda>ua. u_id (j_u j) = ua_user_id ua) (user_aggregates db now))
     \<and> j_ucr j \<in> set (left_join (\<lambda>ucr. u_id (j_u j) = ucr_id ucr) (user_creation_rank db))
     \<and> j_tc j = int (length (users_t db))"
  (is "?L \<longleftrightarrow> ?R")
proof
  assume ?L
  then show ?R
    by (auto simp: from_clause_def joined_for_def total_users_count_def)
next
  assume r: ?R
  have "j \<in> set (joined_for db now (j_u j))"
    unfolding joined_for_def total_users_count_def set_map set_product
    by (rule image_eqI[where x = "(j_a j, j_ur j, j_ud j, j_ua j, j_ucr j, j_tc j)"])
       (use r in simp_all)
  with r show ?L
    by (auto simp: from_clause_def)
qed

lemma where_clause_matches:
  "(\<exists>ud \<in> set (left_join (\<lambda>ud. u_id u = ud_user_id ud) (user_divisions_t db)). where_clause p ud)
     \<longleftrightarrow> profile_matches db p u"
proof (cases "p = None \<or> p = Some ''all''")
  case True
  obtain x where "x \<in> set (left_join (\<lambda>ud. u_id u = ud_user_id ud) (user_divisions_t db))"
    using left_join_ne[of "\<lambda>ud. u_id u = ud_user_id ud" "user_divisions_t db"]
    by (meson last_in_set)
  with True show ?thesis
    by (auto simp: where_clause_def profile_matches_def)
next
  case False
  have "where_clause p ud \<longleftrightarrow> (\<exists>d. ud = Some d \<and> ud_division_name d = p)" for ud
    using False by (cases ud) (auto simp: where_clause_def division_name_of_def)
  then show ?thesis
    using False by (auto simp: profile_matches_def list_ex_iff Some_in_left_join)
qed

lemma main_rows_iff:
  "y \<in> set (main_rows db now p) \<longleftrightarrow>
     (\<exists>j \<in> set (from_clause db now). where_clause p (j_ud j) \<and> y = select_row j)"
  by (auto simp: main_rows_def)

lemma row_id_select_row: "row_id (select_row j) = u_id (j_u j)"
  by (simp add: select_row_def Let_def)

lemma row_created_at_select_row: "row_created_at (select_row j) = u_created_at (j_u j)"
  by (simp add: select_row_def Let_def)

lemma matching_profile_has_row:
  assumes "u \<in> set (users_t db)" and "profile_matches db p u"
  shows "\<exists>y \<in> set (main_rows db now p). row_id y = u_id u"
proof -
  from assms(2) obtain ud where
    ud: "ud \<in> set (left_join (\<lambda>ud. u_id u = ud_user_id ud) (user_divisions_t db))" "where_clause p ud"
    using where_clause_matches[of u db p] by blast
  obtain a where a: "a \<in> set (left_join (\<lambda>a. u_auth_id u = Some (a_id a)) (auth_t db))"
    using left_join_ne by (meson last_in_set)
  obtain ur where ur: "ur \<in> set (left_join (\<lambda>ur. u_id u = ur_user_id ur) (user_roles_t db))"
    using left_join_ne by (meson last_in_set)
  obtain ua where ua: "ua \<in> set (left_join (\<lambda>ua. u_id u = ua_user_id ua) (user_aggregates db now))"
    using left_join_ne by (meson last_in_set)
  obtain ucr where ucr: "ucr \<in> set (left_join (\<lambda>ucr. u_id u = ucr_id ucr) (user_creation_rank db))"
    using left_join_ne by (meson last_in_set)
  let ?j = "\<lparr> j_u = u, j_a = a, j_ur = ur, j_ud = ud, j_ua = ua, j_ucr = ucr,
              j_tc = int (length (users_t db)) \<rparr>"
  have "?j \<in> set (from_clause db now)"
    using assms(1) ud a ur ua ucr by (simp add: from_clause_iff)
  then have "select_row ?j \<in> set (main_rows db now p)"
    unfolding main_rows_iff using ud(2) by (intro bexI[of _ ?j]) simp_all
  moreover have "row_id (select_row ?j) = u_id u"
    by (simp add: row_id_select_row)
  ultimately show ?thesis by blast
qed

lemma no_logs_no_aggregate:
  assumes "j \<in> set (from_clause db now)"
      and "u_id (j_u j) \<notin> ul_user_id ` set (user_logs_t db)"
  shows "j_ua j = None"
proof (cases "j_ua j")
  case None
  then show ?thesis .
next
  case (Some ua)
  with assms(1) have "ua \<in> set (user_aggregates db now) \<and> u_id (j_u j) = ua_user_id ua"
    by (simp add: from_clause_iff Some_in_left_join)
  then have "u_id (j_u j) \<in> ul_user_id ` set (user_logs_t db)"
    by (auto simp: user_aggregates_def Let_def)
  with assms(2) show ?thesis by simp
qed






section \<open>The derived fields\<close>





text \<open>
  Claim C10. In every returned record \<open>roleCount\<close> and \<open>divisionCount\<close> are the constant
  1, whatever the number of role rows and division rows of the profile; the witness is a
  profile with two of each.
\<close>

theorem role_and_division_count_constant:
  assumes "engine_ok srt (main_rows db now (division_q r))"
      and "GET db now srt r = Inr resp"
      and "x \<in> set (users resp)"
  shows "roleCount x = 1 \<and> divisionCount x = 1"
proof -
  from users_of_response[OF assms] obtain j where x: "x = to_json (select_row j)"
    by blast
  show ?thesis
    unfolding x by (simp add: to_json_def select_row_def Let_def)
qed

theorem role_and_division_count_constant_witness:
  "engine_ok stable_sort (main_rows db_dup 100 (division_q (req_ex None ''1'' ''2'')))
   \<and> GET db_dup 100 stable_sort (req_ex None ''1'' ''2'')
       = Inr (projr (GET db_dup 100 stable_sort (req_ex None ''1'' ''2'')))
   \<and> hd (users (projr (GET db_dup 100 stable_sort (req_ex None ''1'' ''2''))))
       \<in> set (users (projr (GET db_dup 100 stable_sort (req_ex None ''1'' ''2''))))
   \<and> userId (hd (users (projr (GET db_dup 100 stable_sort (req_ex None ''1'' ''2''))))) = 1
   \<and> map ur_user_id (user_roles_t db_dup) = [1, 1]
   \<and> map ud_user_id (user_divisions_t db_dup) = [1, 1]
   \<and> roleCount (hd (users (projr (GET db_dup 100 stable_sort (req_ex None ''1'' ''2''))))) = 1
   \<and> divisionCount (hd (users (projr (GET db_dup 100 stable_sort (req_ex None ''1'' ''2''))))) = 1"
proof -
  let ?resp = "projr (GET db_dup 100 stable_sort (req_ex None ''1'' ''2''))"
  have h1: "engine_ok stable_sort (main_rows db_dup 100 (division_q (req_ex None ''1'' ''2'')))"
    by code_simp
  have h2: "GET db_dup 100 stable_sort (req_ex None ''1'' ''2'') = Inr ?resp"
    by code_simp
  have h3: "hd (users ?resp) \<in> set (users ?resp)"
    by code_simp
  have f: "userId (hd (users ?resp)) = 1" "map ur_user_id (user_roles_t db_dup) = [1, 1]"
      "map ud_user_id (user_divisions_t db_dup) = [1, 1]"
    by code_simp+
  from role_and_division_count_constant[OF h1 h2 h3] h1 h2 h3 f
  show ?thesis by simp
qed

section \<open>Pagination\<close>

lemma Math_ceil_quot_bounds:
  assumes "0 < b"
  shows "(Math_ceil_quot a b - 1) * b < a \<and> a \<le> Math_ceil_quot a b * b"
proof -
  have "real_of_int (Math_ceil_quot a b) - 1 < real_of_int a / real_of_int b"
    and "real_of_int a / real_of_int b \<le> real_of_int (Math_ceil_quot a b)"
    unfolding Math_ceil_quot_def by linarith+
  then have "(real_of_int (Math_ceil_quot a b) - 1) * real_of_int b < real_of_int a"
    and "real_of_int a \<le> real_of_int (Math_ceil_quot a b) * real_of_int b"
    using assms by (simp_all add: pos_less_divide_eq pos_divide_le_eq)
  then have "real_of_int ((Math_ceil_quot a b - 1) * b) < real_of_int a"
    and "real_of_int a \<le> real_of_int (Math_ceil_quot a b * b)"
    by simp_all
  then show ?thesis
    by (simp only: of_int_less_iff of_int_le_iff)
qed

text \<open>
  Claim C9. In every response \<open>totalPages\<close> is the ceiling of \<open>totalCount / limit\<close>, that
  is the least number of pages of \<open>limit\<close> rows that hold \<open>totalCount\<close> rows;
  \<open>hasNextPage\<close> is \<open>page < totalPages\<close> and \<open>hasPreviousPage\<close> is \<open>page > 1\<close>;
  \<open>totalCount\<close> is the result of the count statement, which depends on the filter only,
  so two responses for the same filter carry the same \<open>totalCount\<close> whatever their page,
  their limit and the engine's order.
\<close>

theorem pagination_metadata:
  assumes "GET db now srt r = Inr resp"
      and "GET db now srt' r' = Inr resp'"
      and "division_q r' = division_q r"
  shows "totalPages (pagination resp)
           = \<lceil>real_of_int (totalCount (pagination resp)) / real_of_int (limit (pagination resp))\<rceil>
         \<and> (totalPages (pagination resp) - 1) * limit (pagination resp) < totalCount (pagination resp)
         \<and> totalCount (pagination resp) \<le> totalPages (pagination resp) * limit (pagination resp)
         \<and> hasNextPage (pagination resp) = (page (pagination resp) < totalPages (pagination resp))
         \<and> hasPreviousPage (pagination resp) = (page (pagination resp) > 1)
         \<and> totalCount (pagination resp) = count_query db (division_q r)
         \<and> totalCount (pagination resp') = totalCount (pagination resp)"
proof -
  from GET_Inr_D[OF assms(1)] obtain pg lm where
    lm: "req_limit r = Num lm" and
    p: "pagination resp =
          \<lparr> page = pg, limit = lm,
            totalPages = Math_ceil_quot (count_query db (division_q r)) lm,
            totalCount = count_query db (division_q r),
            hasNextPage = (pg < Math_ceil_quot (count_query db (division_q r)) lm),
            hasPreviousPage = (pg > 1) \<rparr>"
    by blast
  from GET_Inr_D[OF assms(2)] have p': "totalCount (pagination resp') = count_query db (division_q r')"
    by auto
  have "0 < lm" using req_limit_range[OF lm] by simp
  from Math_ceil_quot_bounds[OF this, of "count_query db (division_q r)"]
  show ?thesis
    unfolding p p' assms(3) by (simp add: Math_ceil_quot_def)
qed

theorem pagination_metadata_witness:
  "GET db_ex 100 stable_sort (req_ex None ''1'' ''2'')
     = Inr (projr (GET db_ex 100 stable_sort (req_ex None ''1'' ''2'')))
   \<and> GET db_ex 100 reversed_scan_sort (req_ex None ''2'' ''1'')
       = Inr (projr (GET db_ex 100 reversed_scan_sort (req_ex None ''2'' ''1'')))
   \<and> division_q (req_ex None ''2'' ''1'') = division_q (req_ex None ''1'' ''2'')
   \<and> pagination (projr (GET db_ex 100 stable_sort (req_ex None ''1'' ''2'')))
       = \<lparr> page = 1, limit = 2, totalPages = 2, totalCount = 3,
           hasNextPage = True, hasPreviousPage = False \<rparr>
   \<and> totalPages (pagination (projr (GET db_ex 100 stable_sort (req_ex None ''1'' ''2''))))
       = \<lceil>real_of_int (totalCount (pagination (projr (GET db_ex 100 stable_sort (req_ex None ''1'' ''2'')))))
          / real_of_int (limit (pagination (projr (GET db_ex 100 stable_sort (req_ex None ''1'' ''2'')))))\<rceil>
   \<and> totalCount (pagination (projr (GET db_ex 100 reversed_scan_sort (req_ex None ''2'' ''1''))))
       = totalCount (pagination (projr (GET db_ex 100 stable_sort (req_ex None ''1'' ''2''))))"
proof -
  let ?resp = "projr (GET db_ex 100 stable_sort (req_ex None ''1'' ''2''))"
  let ?resp' = "projr (GET db_ex 100 reversed_scan_sort (req_ex None ''2'' ''1''))"
  have h1: "GET db_ex 100 stable_sort (req_ex None ''1'' ''2'') = Inr ?resp"
    by code_simp
  have h2: "GET db_ex 100 reversed_scan_sort (req_ex None ''2'' ''1'') = Inr ?resp'"
    by code_simp
  have h3: "division_q (req_ex None ''2'' ''1'') = division_q (req_ex None ''1'' ''2'')"
    by code_simp
  have f: "pagination ?resp
       = \<lparr> page = 1, limit = 2, totalPages = 2, totalCount = 3,
           hasNextPage = True, hasPreviousPage = False \<rparr>"
    by code_simp
  from pagination_metadata[OF h1 h2 h3] h1 h2 h3 f
  show ?thesis by simp
qed



section \<open>The division filter\<close>




section \<open>Profiles without activity\<close>

text \<open>
  Claim C3. A profile that matches the filter and has no row in \<open>user_logs\<close> has a row in
  the ordered result (the join with the aggregates does not drop it); when such a row
  stands at a position inside the window of the requested page, the page holds it, and
  its \<open>logCount\<close>, \<open>loginCount\<close>, \<open>updateCount\<close> and \<open>recentLogs\<close> are 0.
\<close>

theorem zero_log_profile_kept:
  assumes "engine_ok srt (main_rows db now (division_q r))"
      and "GET db now srt r = Inr resp"
      and "u \<in> set (users_t db)"
      and "profile_matches db (division_q r) u"
      and "u_id u \<notin> ul_user_id ` set (user_logs_t db)"
  shows "(\<exists>k < length (srt (main_rows db now (division_q r))).
            row_id (srt (main_rows db now (division_q r)) ! k) = u_id u)
         \<and> (i < length (srt (main_rows db now (division_q r)))
              \<and> row_id (srt (main_rows db now (division_q r)) ! i) = u_id u
              \<and> (page (pagination resp) - 1) * limit (pagination resp) \<le> int i
              \<and> int i < (page (pagination resp) - 1) * limit (pagination resp)
                           + limit (pagination resp)
            \<longrightarrow> (\<exists>x \<in> set (users resp).
                   x = to_json (srt (main_rows db now (division_q r)) ! i)
                   \<and> userId x = u_id u
                   \<and> logCount x = 0 \<and> loginCount x = 0 \<and> updateCount x = 0 \<and> recentLogs x = 0))"
proof -
  let ?ordered = "srt (main_rows db now (division_q r))"
  have set_eq: "set ?ordered = set (main_rows db now (division_q r))"
    by (rule engine_ok_set[OF assms(1)])
  from matching_profile_has_row[OF assms(3,4), of now]
  obtain y where "y \<in> set ?ordered" "row_id y = u_id u"
    using set_eq by blast
  then have A: "\<exists>k < length ?ordered. row_id (?ordered ! k) = u_id u"
    by (metis in_set_conv_nth)
  have B: "\<exists>x \<in> set (users resp).
             x = to_json (?ordered ! i) \<and> userId x = u_id u
             \<and> logCount x = 0 \<and> loginCount x = 0 \<and> updateCount x = 0 \<and> recentLogs x = 0"
    if i: "i < length ?ordered" and id: "row_id (?ordered ! i) = u_id u"
      and lo: "(page (pagination resp) - 1) * limit (pagination resp) \<le> int i"
      and hi: "int i < (page (pagination resp) - 1) * limit (pagination resp)
                         + limit (pagination resp)"
  proof -
    from GET_Inr_D[OF assms(2)] obtain pg lm where
      nn: "0 \<le> lm" "0 \<le> (pg - 1) * lm" and
      us: "users resp = map to_json (take (nat lm) (drop (nat ((pg - 1) * lm)) ?ordered))" and
      pa: "page (pagination resp) = pg" "limit (pagination resp) = lm"
      by auto
    let ?off = "nat ((pg - 1) * lm)"
    define ofs where "ofs = (pg - 1) * lm"
    have o: "0 \<le> ofs" "ofs \<le> int i" "int i < ofs + lm"
      using lo hi nn pa by (simp_all add: ofs_def)
    have lo': "?off \<le> i" using o unfolding ofs_def[symmetric] by linarith
    have hi': "i - ?off < nat lm" using o nn(1) unfolding ofs_def[symmetric] by linarith
    have len: "i - ?off < length (drop ?off ?ordered)" using i lo' by simp
    have "take (nat lm) (drop ?off ?ordered) ! (i - ?off) = ?ordered ! i"
      using hi' lo' i by simp
    moreover have "i - ?off < length (take (nat lm) (drop ?off ?ordered))"
      using hi' len by simp
    ultimately have "?ordered ! i \<in> set (take (nat lm) (drop ?off ?ordered))"
      by (metis nth_mem)
    then have in_page: "to_json (?ordered ! i) \<in> set (users resp)"
      unfolding us by simp
    have "?ordered ! i \<in> set (main_rows db now (division_q r))"
      using i set_eq nth_mem by blast
    then obtain j where j: "j \<in> set (from_clause db now)" "?ordered ! i = select_row j"
      by (auto simp: main_rows_iff)
    have "u_id (j_u j) = u_id u"
      using id j(2) by (simp add: row_id_select_row)
    with assms(5) have "j_ua j = None"
      by (intro no_logs_no_aggregate[OF j(1)]) simp
    then have "logCount (to_json (select_row j)) = 0 \<and> loginCount (to_json (select_row j)) = 0
         \<and> updateCount (to_json (select_row j)) = 0 \<and> recentLogs (to_json (select_row j)) = 0"
      by (simp add: to_json_def select_row_def coalesce_def Let_def)
    moreover have "userId (to_json (?ordered ! i)) = u_id u"
      using id by (simp add: to_json_def)
    ultimately show ?thesis
      using in_page j(2) by auto
  qed
  from A B show ?thesis by blast
qed

theorem zero_log_profile_kept_witness:
  "engine_ok stable_sort (main_rows db_ex 100 (division_q (req_ex None ''1'' ''2'')))
   \<and> GET db_ex 100 stable_sort (req_ex None ''1'' ''2'')
       = Inr (projr (GET db_ex 100 stable_sort (req_ex None ''1'' ''2'')))
   \<and> last (users_t db_ex) \<in> set (users_t db_ex)
   \<and> profile_matches db_ex (division_q (req_ex None ''1'' ''2'')) (last (users_t db_ex))
   \<and> u_id (last (users_t db_ex)) \<notin> ul_user_id ` set (user_logs_t db_ex)
   \<and> (\<exists>k < length (stable_sort (main_rows db_ex 100 (division_q (req_ex None ''1'' ''2'')))).
         row_id (stable_sort (main_rows db_ex 100 (division_q (req_ex None ''1'' ''2''))) ! k)
           = u_id (last (users_t db_ex)))
   \<and> 0 < length (stable_sort (main_rows db_ex 100 (division_q (req_ex None ''1'' ''2''))))
   \<and> row_id (stable_sort (main_rows db_ex 100 (division_q (req_ex None ''1'' ''2''))) ! 0)
       = u_id (last (users_t db_ex))
   \<and> (\<exists>x \<in> set (users (projr (GET db_ex 100 stable_sort (req_ex None ''1'' ''2'')))).
         userId x = 3
         \<and> logCount x = 0 \<and> loginCount x = 0 \<and> updateCount x = 0 \<and> recentLogs x = 0)"
proof -
  let ?r = "req_ex None ''1'' ''2''"
  let ?resp = "projr (GET db_ex 100 stable_sort ?r)"
  let ?u = "last (users_t db_ex)"
  let ?ordered = "stable_sort (main_rows db_ex 100 (division_q ?r))"
  have h1: "engine_ok stable_sort (main_rows db_ex 100 (division_q ?r))" by code_simp
  have h2: "GET db_ex 100 stable_sort ?r = Inr ?resp" by code_simp
  have h3: "?u \<in> set (users_t db_ex)" by code_simp
  have h4: "profile_matches db_ex (division_q ?r) ?u" by code_simp
  have h5: "u_id ?u \<notin> ul_user_id ` set (user_logs_t db_ex)" by code_simp
  have i1: "0 < length ?ordered" by code_simp
  have i2: "row_id (?ordered ! 0) = u_id ?u" by code_simp
  have i3: "(page (pagination ?resp) - 1) * limit (pagination ?resp) \<le> int 0" by code_simp
  have i4: "int 0 < (page (pagination ?resp) - 1) * limit (pagination ?resp)
                      + limit (pagination ?resp)" by code_simp
  have id: "u_id ?u = 3" by code_simp
  from zero_log_profile_kept[OF h1 h2 h3 h4 h5, of 0] i1 i2 i3 i4
  have "(\<exists>k < length ?ordered. row_id (?ordered ! k) = u_id ?u)"
    and "\<exists>x \<in> set (users ?resp). userId x = 3
         \<and> logCount x = 0 \<and> loginCount x = 0 \<and> updateCount x = 0 \<and> recentLogs x = 0"
    unfolding id by blast+
  with h1 h2 h3 h4 h5 i1 i2 show ?thesis by blast
qed

section \<open>How many rows a profile contributes\<close>

lemma filter_key_le1:
  assumes "distinct (map k xs)"
  shows "length (filter (\<lambda>x. v = k x) xs) \<le> 1"
  using assms
proof (induction xs)
  case Nil
  then show ?case by simp
next
  case (Cons x xs)
  show ?case
  proof (cases "v = k x")
    case True
    with Cons.prems have "\<forall>y \<in> set xs. v \<noteq> k y" by auto
    then have "filter (\<lambda>x. v = k x) xs = []" by (simp add: filter_empty_conv)
    with True show ?thesis by simp
  next
    case False
    with Cons show ?thesis by simp
  qed
qed

lemma left_join_single:
  assumes "distinct (map k rs)"
  shows "length (left_join (\<lambda>x. v = k x) rs) = 1"
  using filter_key_le1[OF assms, of v] by (simp add: length_left_join)

lemma length_filter_product_snd:
  "length (filter (\<lambda>(a, b). Q b) (List.product xs ys)) = length xs * length (filter Q ys)"
  by (induction xs) (simp_all add: filter_map comp_def)

lemma length_filter_product_fst:
  "length (filter (\<lambda>(a, b). Q a) (List.product xs ys)) = length (filter Q xs) * length ys"
  by (induction xs) (simp_all add: filter_map comp_def)

lemma length_rows_for:
  "length (rows_for db now p u) =
     length (left_join (\<lambda>a. u_auth_id u = Some (a_id a)) (auth_t db))
     * (length (left_join (\<lambda>ur. u_id u = ur_user_id ur) (user_roles_t db))
     * (length (filter (where_clause p)
                  (left_join (\<lambda>ud. u_id u = ud_user_id ud) (user_divisions_t db)))
     * (length (left_join (\<lambda>ua. u_id u = ua_user_id ua) (user_aggregates db now))
     * length (left_join (\<lambda>ucr. u_id u = ucr_id ucr) (user_creation_rank db)))))"
proof -
  let ?A = "left_join (\<lambda>a. u_auth_id u = Some (a_id a)) (auth_t db)"
  let ?R = "left_join (\<lambda>ur. u_id u = ur_user_id ur) (user_roles_t db)"
  let ?D = "left_join (\<lambda>ud. u_id u = ud_user_id ud) (user_divisions_t db)"
  let ?X = "List.product (left_join (\<lambda>ua. u_id u = ua_user_id ua) (user_aggregates db now))
             (List.product (left_join (\<lambda>ucr. u_id u = ucr_id ucr) (user_creation_rank db))
                (total_users_count db))"
  have "length (rows_for db now p u)
          = length (filter (\<lambda>x. where_clause p (fst (snd (snd x))))
                      (List.product ?A (List.product ?R (List.product ?D ?X))))"
    by (simp add: rows_for_def joined_for_def filter_map comp_def case_prod_beta)
  also have "\<dots> = length (filter (\<lambda>(a, b). (\<lambda>(ur, c). (\<lambda>(ud, d). where_clause p ud) c) b)
                      (List.product ?A (List.product ?R (List.product ?D ?X))))"
    by (auto intro!: arg_cong[where f = length] filter_cong)
  also have "\<dots> = length ?A * length (filter (\<lambda>(ur, c). (\<lambda>(ud, d). where_clause p ud) c)
                                        (List.product ?R (List.product ?D ?X)))"
    by (rule length_filter_product_snd)
  also have "length (filter (\<lambda>(ur, c). (\<lambda>(ud, d). where_clause p ud) c)
                       (List.product ?R (List.product ?D ?X)))
               = length ?R * length (filter (\<lambda>(ud, d). where_clause p ud) (List.product ?D ?X))"
    by (rule length_filter_product_snd)
  also have "length (filter (\<lambda>(ud, d). where_clause p ud) (List.product ?D ?X))
               = length (filter (where_clause p) ?D) * length ?X"
    by (rule length_filter_product_fst)
  finally show ?thesis
    by (simp add: total_users_count_def)
qed

lemma main_rows_concat:
  "main_rows db now p = concat (map (rows_for db now p) (users_t db))"
  by (simp add: main_rows_def from_clause_def rows_for_def[abs_def] filter_concat map_concat comp_def)

lemma rows_for_keys:
  assumes "y \<in> set (rows_for db now p u)"
  shows "row_id y = u_id u \<and> row_created_at y = u_created_at u"
  using assms
  by (auto simp: rows_for_def joined_for_def row_id_select_row row_created_at_select_row)

lemma distinct_aggregate_keys: "distinct (map ua_user_id (user_aggregates db now))"
proof -
  have "map ua_user_id (user_aggregates db now) = remdups (map ul_user_id (user_logs_t db))"
    by (simp add: user_aggregates_def Let_def comp_def)
  then show ?thesis by simp
qed

lemma rank_keys: "map ucr_id (user_creation_rank db) = map u_id (users_t db)"
  by (simp add: user_creation_rank_def comp_def)

lemma length_rows_for_unique:
  assumes "unique_keys db" and "single_assignments db"
  shows "length (rows_for db now p u)
           = length (filter (where_clause p)
                       (left_join (\<lambda>ud. u_id u = ud_user_id ud) (user_divisions_t db)))"
    and "length (left_join (\<lambda>ud. u_id u = ud_user_id ud) (user_divisions_t db)) = 1"
proof -
  have "distinct (map (\<lambda>a. Some (a_id a)) (auth_t db))"
    using assms(1) by (auto simp: unique_keys_def distinct_map inj_on_def)
  then have a: "length (left_join (\<lambda>a. u_auth_id u = Some (a_id a)) (auth_t db)) = 1"
    by (rule left_join_single)
  have r: "length (left_join (\<lambda>ur. u_id u = ur_user_id ur) (user_roles_t db)) = 1"
    using assms(2) by (intro left_join_single) (simp add: single_assignments_def)
  show d: "length (left_join (\<lambda>ud. u_id u = ud_user_id ud) (user_divisions_t db)) = 1"
    using assms(2) by (intro left_join_single) (simp add: single_assignments_def)
  have g: "length (left_join (\<lambda>ua. u_id u = ua_user_id ua) (user_aggregates db now)) = 1"
    by (intro left_join_single distinct_aggregate_keys)
  have k: "length (left_join (\<lambda>ucr. u_id u = ucr_id ucr) (user_creation_rank db)) = 1"
    using assms(1) by (intro left_join_single) (simp add: rank_keys unique_keys_def)
  show "length (rows_for db now p u)
           = length (filter (where_clause p)
                       (left_join (\<lambda>ud. u_id u = ud_user_id ud) (user_divisions_t db)))"
    unfolding length_rows_for a r g k by simp
qed

lemma filter_singleton_length:
  assumes "length xs = 1"
  shows "length (filter P xs) = (if \<exists>x \<in> set xs. P x then 1 else 0)"
proof -
  from assms obtain x where "xs = [x]"
    by (cases xs) auto
  then show ?thesis by simp
qed

lemma rows_for_count_unique:
  assumes "unique_keys db" and "single_assignments db"
  shows "length (rows_for db now p u) = (if profile_matches db p u then 1 else 0)"
    and "length (filter (where_clause p)
                   (left_join (\<lambda>ud. u_id u = ud_user_id ud) (user_divisions_t db)))
           = (if profile_matches db p u then 1 else 0)"
  using length_rows_for_unique(1)[OF assms, where now = now and p = p and u = u]
        length_rows_for_unique(2)[OF assms, where u = u]
        filter_singleton_length[of "left_join (\<lambda>ud. u_id u = ud_user_id ud) (user_divisions_t db)"
                                   "where_clause p"]
        where_clause_matches[of u db p]
  by simp_all

lemma distinct_concat_keys:
  assumes "distinct (map k us)"
      and "\<And>u. u \<in> set us \<Longrightarrow> length (f u) \<le> 1"
      and "\<And>u y. u \<in> set us \<Longrightarrow> y \<in> set (f u) \<Longrightarrow> g y = k u"
  shows "distinct (map g (concat (map f us)))"
  using assms
proof (induction us)
  case Nil
  then show ?case by simp
next
  case (Cons u us)
  have one: "distinct (map g (f u))"
  proof -
    have "length (f u) \<le> 1" using Cons.prems(2) by simp
    then show ?thesis by (cases "f u") auto
  qed
  have rest: "distinct (map g (concat (map f us)))"
    using Cons by simp
  have "g y \<noteq> g z" if "y \<in> set (f u)" and "z \<in> set (concat (map f us))" for y z
  proof -
    from that(2) obtain v where v: "v \<in> set us" "z \<in> set (f v)" by auto
    have "g y = k u" using Cons.prems(3) that(1) by simp
    moreover have "g z = k v" using Cons.prems(3) v by simp
    moreover have "k u \<noteq> k v" using Cons.prems(1) v(1) by auto
    ultimately show ?thesis by simp
  qed
  with one rest show ?case by (auto simp: distinct_map inj_on_def) 
qed

lemma count_filter_concat:
  assumes "\<And>u. u \<in> set us \<Longrightarrow> length (filter W (f u)) = (if M u then 1 else 0)"
  shows "length (filter W (concat (map f us))) = length (filter M us)"
  using assms by (induction us) simp_all

lemma count_query_unique:
  assumes "unique_keys db" and "single_assignments db"
  shows "count_query db p = int (length (filter (profile_matches db p) (users_t db)))"
  unfolding count_query_def count_where_def
  by (simp add: count_filter_concat[where M = "profile_matches db p"]
        rows_for_count_unique(2)[OF assms])

lemma engine_ok_mset: "engine_ok srt rows \<Longrightarrow> mset (srt rows) = mset rows"
  by (simp add: engine_ok_def order_by_created_at_desc_def)

lemma userId_to_json: "map userId (map to_json xs) = map row_id xs"
  by (simp add: to_json_def)

section \<open>Duplicate satellite rows\<close>

text \<open>
  Claim C1, as the handler has it. The statements join \<open>user_roles\<close> and
  \<open>user_divisions\<close> without grouping, on the schema's word that a profile has one row in
  each. In every dataset with unique \<open>users.id\<close> and \<open>auth.id\<close> and at most one role row
  and one division row for each profile, no profile occurs twice in a page, and
  \<open>totalCount\<close> is the number of distinct profiles that match the filter.
\<close>

theorem profiles_not_duplicated:
  assumes "unique_keys db" and "single_assignments db"
      and "engine_ok srt (main_rows db now (division_q r))"
      and "GET db now srt r = Inr resp"
  shows "distinct (map userId (users resp))
         \<and> totalCount (pagination resp)
             = int (card (u_id ` {u \<in> set (users_t db). profile_matches db (division_q r) u}))"
proof -
  let ?p = "division_q r"
  from GET_Inr_D[OF assms(4)] obtain pg lm where
    us: "users resp = map to_json (take (nat lm) (drop (nat ((pg - 1) * lm)) (srt (main_rows db now ?p))))"
    and tc: "totalCount (pagination resp) = count_query db ?p"
    by auto
  have ids: "distinct (map u_id (users_t db))"
    using assms(1) by (simp add: unique_keys_def)
  have "distinct (map row_id (main_rows db now ?p))"
    unfolding main_rows_concat
  proof (rule distinct_concat_keys[OF ids])
    fix u
    show "length (rows_for db now ?p u) \<le> 1"
      by (simp add: rows_for_count_unique(1)[OF assms(1,2)])
  next
    fix u y
    assume "y \<in> set (rows_for db now ?p u)"
    then show "row_id y = u_id u" by (simp add: rows_for_keys)
  qed
  moreover have "mset (map row_id (srt (main_rows db now ?p))) = mset (map row_id (main_rows db now ?p))"
    using engine_ok_mset[OF assms(3)] by simp
  ultimately have "distinct (map row_id (srt (main_rows db now ?p)))"
    by (metis mset_eq_imp_distinct_iff)
  then have "distinct (take (nat lm) (drop (nat ((pg - 1) * lm)) (map row_id (srt (main_rows db now ?p)))))"
    by (intro distinct_take distinct_drop)
  then have d: "distinct (map userId (users resp))"
    unfolding us userId_to_json by (simp add: take_map drop_map)
  have "distinct (map u_id (filter (profile_matches db ?p) (users_t db)))"
    using ids by (rule distinct_map_filter)
  then have "card (set (map u_id (filter (profile_matches db ?p) (users_t db))))
               = length (filter (profile_matches db ?p) (users_t db))"
    using distinct_card by fastforce
  moreover have "set (map u_id (filter (profile_matches db ?p) (users_t db)))
                   = u_id ` {u \<in> set (users_t db). profile_matches db ?p u}"
    by auto
  ultimately have "count_query db ?p
      = int (card (u_id ` {u \<in> set (users_t db). profile_matches db ?p u}))"
    using count_query_unique[OF assms(1,2), of ?p] by simp
  with d tc show ?thesis by simp
qed

theorem profiles_not_duplicated_witness:
  "unique_keys db_ex \<and> single_assignments db_ex
   \<and> engine_ok stable_sort (main_rows db_ex 100 (division_q (req_ex (Some ''Tech'') ''1'' ''2'')))
   \<and> GET db_ex 100 stable_sort (req_ex (Some ''Tech'') ''1'' ''2'')
       = Inr (projr (GET db_ex 100 stable_sort (req_ex (Some ''Tech'') ''1'' ''2'')))
   \<and> map userId (users (projr (GET db_ex 100 stable_sort (req_ex (Some ''Tech'') ''1'' ''2'')))) = [1]
   \<and> distinct (map userId (users (projr (GET db_ex 100 stable_sort (req_ex (Some ''Tech'') ''1'' ''2'')))))
   \<and> totalCount (pagination (projr (GET db_ex 100 stable_sort (req_ex (Some ''Tech'') ''1'' ''2''))))
       = int (card (u_id ` {u \<in> set (users_t db_ex).
                             profile_matches db_ex (division_q (req_ex (Some ''Tech'') ''1'' ''2'')) u}))
   \<and> totalCount (pagination (projr (GET db_ex 100 stable_sort (req_ex (Some ''Tech'') ''1'' ''2'')))) = 1"
proof -
  let ?r = "req_ex (Some ''Tech'') ''1'' ''2''"
  let ?resp = "projr (GET db_ex 100 stable_sort ?r)"
  have h1: "unique_keys db_ex" by code_simp
  have h2: "single_assignments db_ex" by code_simp
  have h3: "engine_ok stable_sort (main_rows db_ex 100 (division_q ?r))" by code_simp
  have h4: "GET db_ex 100 stable_sort ?r = Inr ?resp" by code_simp
  have f: "map userId (users ?resp) = [1]" "totalCount (pagination ?resp) = 1" by code_simp+
  from profiles_not_duplicated[OF h1 h2 h3 h4] h1 h2 h3 h4 f
  show ?thesis by simp
qed

text \<open>
  A profile with two role rows and two division rows fills four rows of the page and
  counts twice in \<open>totalCount\<close>, while one profile matches.
\<close>

theorem duplicate_assignments_counterexample:
  "engine_ok stable_sort (main_rows db_dup 100 (division_q (req_ex None ''1'' ''10'')))
   \<and> GET db_dup 100 stable_sort (req_ex None ''1'' ''10'')
       = Inr (projr (GET db_dup 100 stable_sort (req_ex None ''1'' ''10'')))
   \<and> map userId (users (projr (GET db_dup 100 stable_sort (req_ex None ''1'' ''10''))))
       = [1, 1, 1, 1]
   \<and> totalCount (pagination (projr (GET db_dup 100 stable_sort (req_ex None ''1'' ''10'')))) = 2
   \<and> map u_id (filter (profile_matches db_dup (division_q (req_ex None ''1'' ''10'')))
                       (users_t db_dup)) = [1]"
proof -
  let ?r = "req_ex None ''1'' ''10''"
  let ?resp = "projr (GET db_dup 100 stable_sort ?r)"
  have "engine_ok stable_sort (main_rows db_dup 100 (division_q ?r))" by code_simp
  moreover have "GET db_dup 100 stable_sort ?r = Inr ?resp" by code_simp
  moreover have "map userId (users ?resp) = [1, 1, 1, 1]" by code_simp
  moreover have "totalCount (pagination ?resp) = 2" by code_simp
  moreover have "map u_id (filter (profile_matches db_dup (division_q ?r)) (users_t db_dup)) = [1]"
    by code_simp
  ultimately show ?thesis by blast
qed

section \<open>Ordering and page coverage\<close>


















section \<open>The creation rank\<close>

text \<open>
  The window count ranges over the peers of the current row as well: \<open>newer_users\<close> is
  the number of strictly newer profiles plus the number of other profiles created at the
  very same time.
\<close>

lemma count_ge_split:
  fixes a :: int
  shows "count_where (\<lambda>v. a \<le> f v) xs
     = count_where (\<lambda>v. a < f v) xs + count_where (\<lambda>v. f v = a) xs"
  unfolding count_where_def by (induction xs) auto

lemma creation_rank_counts_peers:
  assumes "rk \<in> set (user_creation_rank db)"
  shows "\<exists>u \<in> set (users_t db). ucr_id rk = u_id u
           \<and> ucr_newer_users rk
               = newer_users_subquery db u
                 + (count_where (\<lambda>v. u_created_at v = u_created_at u) (users_t db) - 1)"
proof -
  from assms obtain u where u: "u \<in> set (users_t db)"
    and rk: "rk = \<lparr> ucr_id = u_id u,
                    ucr_newer_users =
                      count_where (\<lambda>v. u_created_at v \<ge> u_created_at u) (users_t db) - 1 \<rparr>"
    by (auto simp: user_creation_rank_def)
  have "ucr_newer_users rk
          = newer_users_subquery db u
            + (count_where (\<lambda>v. u_created_at v = u_created_at u) (users_t db) - 1)"
    unfolding rk newer_users_subquery_def
    using count_ge_split[of "u_created_at u" u_created_at "users_t db"] by simp
  with u rk show ?thesis by auto
qed

text \<open>
  Claim C4 says that \<open>newerUsers\<close> is the number of profiles created strictly later, so
  that the newest profile has rank 0. With two profiles created at the same time and none
  later, the handler returns 1 for each of them, where the count of strictly newer
  profiles, which the earlier subquery selected, is 0.
\<close>

theorem newer_users_counts_peers_at_ties:
  "GET db_ties 100 stable_sort (req_ex None ''1'' ''2'')
     = Inr (projr (GET db_ties 100 stable_sort (req_ex None ''1'' ''2'')))
   \<and> map userId (users (projr (GET db_ties 100 stable_sort (req_ex None ''1'' ''2'')))) = [1, 2]
   \<and> map newerUsers (users (projr (GET db_ties 100 stable_sort (req_ex None ''1'' ''2''))))
       = [Some 1, Some 1]
   \<and> map u_id (users_t db_ties) = [1, 2]
   \<and> map (newer_users_subquery db_ties) (users_t db_ties) = [0, 0]"
proof -
  have "GET db_ties 100 stable_sort (req_ex None ''1'' ''2'')
     = Inr (projr (GET db_ties 100 stable_sort (req_ex None ''1'' ''2'')))" by code_simp
  moreover have "map userId (users (projr (GET db_ties 100 stable_sort (req_ex None ''1'' ''2'')))) = [1, 2]"
    by code_simp
  moreover have "map newerUsers (users (projr (GET db_ties 100 stable_sort (req_ex None ''1'' ''2''))))
       = [Some 1, Some 1]" by code_simp
  moreover have "map u_id (users_t db_ties) = [1, 2]" by code_simp
  moreover have "map (newer_users_subquery db_ties) (users_t db_ties) = [0, 0]" by code_simp
  ultimately show ?thesis by (intro conjI)
qed

end
